theory Spec2Isabelle
  imports Main
begin

section \<open>JavaScript values\<close>

text \<open>
  The endpoints store whatever the transport decodes (\<^verbatim>\<open>res.json()\<close>, typed \<^verbatim>\<open>any\<close>), so
  the model works on JavaScript values rather than on a typed resource. Numbers are the
  integers (ids, counts, limits, offsets); fractions, NaN and the infinities are not
  represented. An array or an object carries the identity the decoder gave it (its
  first argument): JavaScript compares objects by identity, in particular as keys of a
  \<^verbatim>\<open>Map\<close>, and two values of this type are equal exactly when they are the same
  JavaScript value. An object is the list of its own properties, each key once.
\<close>

datatype jsval =
    Undefined
  | Null
  | Bool bool
  | Num int
  | Str string
  | Arr nat "jsval list"
  | Obj nat "(string \<times> jsval) list"

text \<open>
  A promise is rejected with the transport's own error (network failure, a body that
  is not JSON), carried here as an opaque reason, or with the \<^verbatim>\<open>TypeError\<close> that
  JavaScript raises on a property read of \<^verbatim>\<open>null\<close>. \<open>DecodeFailure\<close> is the spec's
  name for a listing of the wrong shape.
\<close>

datatype error = Rejected string | TypeError | DecodeFailure

text \<open>Truthiness, as \<^verbatim>\<open>||\<close> and \<^verbatim>\<open>if\<close> test it.\<close>

fun truthy :: "jsval \<Rightarrow> bool" where
  "truthy Undefined = False"
| "truthy Null = False"
| "truthy (Bool b) = b"
| "truthy (Num n) = (n \<noteq> 0)"
| "truthy (Str s) = (s \<noteq> [])"
| "truthy (Arr a xs) = True"
| "truthy (Obj a ps) = True"

text \<open>
  The property read \<^verbatim>\<open>data.p\<close>, for the properties the endpoints read (\<^verbatim>\<open>id\<close>,
  \<^verbatim>\<open>name\<close>, \<^verbatim>\<open>count\<close>): none of them exists on the prototype of a boolean, number,
  string or array, so only an object can have one; on \<^verbatim>\<open>null\<close> and \<^verbatim>\<open>undefined\<close>
  the read throws.
\<close>

definition property :: "(string \<times> jsval) list \<Rightarrow> string \<Rightarrow> jsval" where
  "property ps p = (case map_of ps p of None \<Rightarrow> Undefined | Some v \<Rightarrow> v)"

fun GetV :: "jsval \<Rightarrow> string \<Rightarrow> error + jsval" where
  "GetV Undefined p = Inl TypeError"
| "GetV Null p = Inl TypeError"
| "GetV (Obj a ps) p = Inr (property ps p)"
| "GetV (Bool b) p = Inr Undefined"
| "GetV (Num n) p = Inr Undefined"
| "GetV (Str s) p = Inr Undefined"
| "GetV (Arr a xs) p = Inr Undefined"

text \<open>Decimal digits of a natural number.\<close>

fun digits :: "nat \<Rightarrow> string" where
  "digits n =
     (if n < 10 then [char_of (48 + n)]
      else digits (n div 10) @ [char_of (48 + n mod 10)])"

declare digits.simps [simp del]

definition join :: "string \<Rightarrow> string list \<Rightarrow> string" where
  "join sep xs = (case xs of [] \<Rightarrow> [] | y # ys \<Rightarrow> y @ concat (map ((@) sep) ys))"

text \<open>
  The string a template literal \<^verbatim>\<open>`${v}`\<close> inserts. An integer below \<open>10^21\<close> in
  magnitude prints in decimal; an array prints its elements joined by commas, with
  \<^verbatim>\<open>null\<close> and \<^verbatim>\<open>undefined\<close> elements empty.
\<close>

fun ToString :: "jsval \<Rightarrow> string" where
  "ToString Undefined = ''undefined''"
| "ToString Null = ''null''"
| "ToString (Bool b) = (if b then ''true'' else ''false'')"
| "ToString (Num n) = (if n < 0 then ''-'' @ digits (nat (- n)) else digits (nat n))"
| "ToString (Str s) = s"
| "ToString (Arr a xs) =
     join '','' (map (\<lambda>x. if x = Undefined \<or> x = Null then [] else ToString x) xs)"
| "ToString (Obj a ps) = ''[object Object]''"

text \<open>
  \<^verbatim>\<open>String.prototype.toLowerCase\<close> is the case mapping of the runtime, which lowers
  every cased letter of Unicode and is no part of the source. Like the transport it is a
  parameter of the model: the methods of \<^verbatim>\<open>NamedEndpoint\<close> that call it take it as
  their first argument, named \<open>toLowerCase\<close>, and what is proved of them holds for every
  function from strings to strings.
\<close>

type_synonym case_mapping = "string \<Rightarrow> string"

text \<open>
  \<^verbatim>\<open>Array.prototype.slice(start, end)\<close> with integer arguments: a negative index counts
  from the end, both are clamped to the array, and the result is empty when the end
  does not lie behind the start.
\<close>

definition slice :: "'a list \<Rightarrow> int \<Rightarrow> int \<Rightarrow> 'a list" where
  "slice xs start fin =
     (let len = int (length xs);
          k = (if start < 0 then max (len + start) 0 else min start len);
          final = (if fin < 0 then max (len + fin) 0 else min fin len)
      in take (nat (final - k)) (drop (nat k) xs))"

text \<open>
  \<^verbatim>\<open>Map.prototype.get\<close>: \<^verbatim>\<open>undefined\<close> for a key that is not there. The name map is
  a \<^verbatim>\<open>Map\<close>; the cache is a \<^verbatim>\<open>Collection\<close> of the package \<^verbatim>\<open>collection\<close>, which
  the endpoints use through \<^verbatim>\<open>get\<close> and \<^verbatim>\<open>set\<close> only and which is taken to be the
  mapping the spec describes (section 3). Both are maps \<open>jsval \<rightharpoonup> jsval\<close> here, and
  \<^verbatim>\<open>m.set(k, v)\<close> is \<open>m(k \<mapsto> v)\<close>.
\<close>

definition Map_get :: "(jsval \<rightharpoonup> jsval) \<Rightarrow> jsval \<Rightarrow> jsval" where
  "Map_get m k = (case m k of None \<Rightarrow> Undefined | Some v \<Rightarrow> v)"

section \<open>The transport and the listing container\<close>

text \<open>
  \<^verbatim>\<open>fetch(url).then(res => res.json())\<close> of node-fetch is the transport. It is a
  parameter of the model: given the URLs requested so far (oldest first) and the URL
  requested now, it either rejects or delivers the decoded body. The log of requested
  URLs is threaded through every operation, so the transport calls of an operation are
  the URLs it appends. An operation runs from its call to the settling of its promise
  without another operation in between.
\<close>

type_synonym transport = "string list \<Rightarrow> string \<Rightarrow> error + jsval"

definition request :: "transport \<Rightarrow> string list \<Rightarrow> string \<Rightarrow> (error + jsval) \<times> string list" where
  "request tr log url = (tr log url, log @ [url])"

definition BASE_URI :: string where
  "BASE_URI = ''https://pokeapi.co/api/v2''"

text \<open>
  Modelled from the spec: the classes \<^verbatim>\<open>ApiResourceList\<close> and
  \<^verbatim>\<open>NamedApiResourceList\<close> (and the interface \<^verbatim>\<open>IApiResourceList\<close>) are imported by
  \<^verbatim>\<open>Endpoint.ts\<close> but are not among the sources. The spec (section 6): a listing is
  constructed from \<^verbatim>\<open>{ count, next, previous, results }\<close> plus a reference to the
  owning endpoint, exposes \<^verbatim>\<open>results\<close> as an ordered, sliceable sequence and
  \<^verbatim>\<open>count\<close>, \<^verbatim>\<open>next\<close>, \<^verbatim>\<open>previous\<close> as fields read verbatim. The record holds the
  four fields; the reference to the owner is not represented. Both classes are this one
  record.
\<close>

record ApiResourceList =
  count :: jsval
  "next" :: jsval
  previous :: jsval
  results :: "jsval list"

text \<open>
  Modelled from the spec: the constructor applied to a decoded body. A body of the
  expected shape (an object whose \<^verbatim>\<open>results\<close> is an array) gives the listing of its
  four properties; the spec (section 7) calls any other body a \<open>DecodeFailure\<close>.
  Where the source passes the object literal \<^verbatim>\<open>{ count, next, previous, results }\<close>
  to the constructor, the model writes the record of these four values.
\<close>

definition new_ApiResourceList :: "jsval \<Rightarrow> error + ApiResourceList" where
  "new_ApiResourceList data =
     (case data of
        Obj a ps \<Rightarrow>
          (case property ps ''results'' of
             Arr b xs \<Rightarrow>
               Inr \<lparr>count = property ps ''count'', next = property ps ''next'',
                    previous = property ps ''previous'', results = xs\<rparr>
           | _ \<Rightarrow> Inl DecodeFailure)
      | _ \<Rightarrow> Inl DecodeFailure)"

text \<open>
  \<^verbatim>\<open>new URLSearchParams({...})\<close> inserted into a template literal: the pairs as
  \<^verbatim>\<open>key=value\<close>, joined by \<^verbatim>\<open>&\<close>. The values here are decimal numerals (digits and
  a minus sign), which the serializer leaves as they are.
\<close>

definition URLSearchParams :: "(string \<times> string) list \<Rightarrow> string" where
  "URLSearchParams kvs = join ''&'' (map (\<lambda>(k, v). k @ ''='' @ v) kvs)"

section \<open>Endpoint\<close>

text \<open>
  The fields of the class. \<open>u_list\<close> is the field \<^verbatim>\<open>_list\<close> (a name cannot start with
  an underscore here): \<open>None\<close> while it is \<^verbatim>\<open>undefined\<close>, which is the only falsy
  value it takes, a listing object being truthy. The cache is a map from keys to
  resources; its keys are whatever \<^verbatim>\<open>data.id\<close> was.
\<close>

record Endpoint =
  resource :: string
  u_list :: "ApiResourceList option"
  cache :: "jsval \<rightharpoonup> jsval"

definition new_Endpoint :: "string \<Rightarrow> Endpoint" where
  "new_Endpoint r = \<lparr>resource = r, u_list = None, cache = Map.empty\<rparr>"

text \<open>An asynchronous method: what its promise settles to, the log, the endpoint.\<close>

type_synonym ('r, 's) outcome = "(error + 'r) \<times> string list \<times> 's"

definition Endpoint_get :: "Endpoint \<Rightarrow> int \<Rightarrow> jsval" where
  "Endpoint_get this param = Map_get (cache this) (Num param)"

text \<open>The method \<^verbatim>\<open>_cache\<close>.\<close>

definition Endpoint_u_cache :: "Endpoint \<Rightarrow> jsval \<Rightarrow> error + Endpoint" where
  "Endpoint_u_cache this data =
     (case GetV data ''id'' of
        Inl e \<Rightarrow> Inl e
      | Inr i \<Rightarrow> Inr (this\<lparr>cache := (cache this)(i \<mapsto> data)\<rparr>))"

text \<open>The parameter \<^verbatim>\<open>cache\<close> of \<^verbatim>\<open>fetch\<close> and \<^verbatim>\<open>listAll\<close> is \<open>cache_flag\<close>.\<close>

definition Endpoint_fetch ::
  "transport \<Rightarrow> string list \<Rightarrow> Endpoint \<Rightarrow> int \<Rightarrow> bool \<Rightarrow> (jsval, Endpoint) outcome" where
  "Endpoint_fetch tr log this param cache_flag =
     (case request tr log (BASE_URI @ ''/'' @ resource this @ ''/'' @ ToString (Num param)) of
        (Inl e, log') \<Rightarrow> (Inl e, log', this)
      | (Inr data, log') \<Rightarrow>
          (case Endpoint_u_cache this data of
             Inl e \<Rightarrow> (Inl e, log', this)
           | Inr this' \<Rightarrow> (Inr data, log', this')))"

definition Endpoint_resolve ::
  "transport \<Rightarrow> string list \<Rightarrow> Endpoint \<Rightarrow> int \<Rightarrow> (jsval, Endpoint) outcome" where
  "Endpoint_resolve tr log this param =
     (if truthy (Endpoint_get this param) then (Inr (Endpoint_get this param), log, this)
      else Endpoint_fetch tr log this param True)"

definition Endpoint_list ::
  "transport \<Rightarrow> string list \<Rightarrow> Endpoint \<Rightarrow> int \<Rightarrow> int \<Rightarrow> (ApiResourceList, Endpoint) outcome" where
  "Endpoint_list tr log this limit offset =
     (case u_list this of
        Some l \<Rightarrow>
          (Inr \<lparr>count = count l, next = next l, previous = previous l,
                results = slice (results l) offset limit\<rparr>, log, this)
      | None \<Rightarrow>
          (case request tr log (BASE_URI @ ''/'' @ resource this @ ''?'' @
                  URLSearchParams [(''limit'', ToString (Num limit)),
                                   (''offset'', ToString (Num offset))]) of
             (Inl e, log') \<Rightarrow> (Inl e, log', this)
           | (Inr data, log') \<Rightarrow>
               (case new_ApiResourceList data of
                  Inl e \<Rightarrow> (Inl e, log', this)
                | Inr l \<Rightarrow> (Inr l, log', this))))"

definition Endpoint_listAll ::
  "transport \<Rightarrow> string list \<Rightarrow> Endpoint \<Rightarrow> bool \<Rightarrow> (ApiResourceList, Endpoint) outcome" where
  "Endpoint_listAll tr log this cache_flag =
     (case u_list this of
        Some l \<Rightarrow> (Inr l, log, this)
      | None \<Rightarrow>
          (case request tr log (BASE_URI @ ''/'' @ resource this @ ''?limit=1'') of
             (Inl e, log1) \<Rightarrow> (Inl e, log1, this)
           | (Inr d1, log1) \<Rightarrow>
               (case GetV d1 ''count'' of
                  Inl e \<Rightarrow> (Inl e, log1, this)
                | Inr cnt \<Rightarrow>
                    (case request tr log1
                            (BASE_URI @ ''/'' @ resource this @ ''?limit='' @ ToString cnt) of
                       (Inl e, log2) \<Rightarrow> (Inl e, log2, this)
                     | (Inr data, log2) \<Rightarrow>
                         (case new_ApiResourceList data of
                            Inl e \<Rightarrow> (Inl e, log2, this)
                          | Inr l \<Rightarrow>
                              (Inr l, log2,
                               if cache_flag then this\<lparr>u_list := Some l\<rparr> else this))))))"

section \<open>NamedEndpoint\<close>

text \<open>
  The subclass adds the field \<^verbatim>\<open>_nameMap\<close> (\<open>u_nameMap\<close>) and overrides every method
  but \<^verbatim>\<open>resolve\<close>. Its keys are whatever \<^verbatim>\<open>data.name\<close> was, its values whatever
  \<^verbatim>\<open>data.id\<close> was.
\<close>

record NamedEndpoint = Endpoint +
  u_nameMap :: "jsval \<rightharpoonup> jsval"

definition new_NamedEndpoint :: "string \<Rightarrow> NamedEndpoint" where
  "new_NamedEndpoint r = \<lparr>resource = r, u_list = None, cache = Map.empty, u_nameMap = Map.empty\<rparr>"

text \<open>\<^verbatim>\<open>NamedEndpointParam = EndpointParam | string\<close>.\<close>

datatype NamedEndpointParam = PNum int | PStr string

fun param_value :: "NamedEndpointParam \<Rightarrow> jsval" where
  "param_value (PNum n) = Num n"
| "param_value (PStr s) = Str s"

definition NamedEndpoint_get :: "case_mapping \<Rightarrow> NamedEndpoint \<Rightarrow> NamedEndpointParam \<Rightarrow> jsval" where
  "NamedEndpoint_get toLowerCase this param =
     Map_get (cache this)
       (case param of
          PNum n \<Rightarrow> Num n
        | PStr s \<Rightarrow> Map_get (u_nameMap this) (Str (toLowerCase s)))"

text \<open>
  The method \<^verbatim>\<open>_cache\<close> of the subclass. The read of \<^verbatim>\<open>data.name\<close> cannot throw once
  the read of \<^verbatim>\<open>data.id\<close> has not, so no error leaves the cache set and the name map
  not.
\<close>

definition NamedEndpoint_u_cache :: "NamedEndpoint \<Rightarrow> jsval \<Rightarrow> error + NamedEndpoint" where
  "NamedEndpoint_u_cache this data =
     (case GetV data ''id'' of
        Inl e \<Rightarrow> Inl e
      | Inr i \<Rightarrow>
          (case GetV data ''name'' of
             Inl e \<Rightarrow> Inl e
           | Inr n \<Rightarrow>
               Inr (this\<lparr>cache := (cache this)(i \<mapsto> data),
                         u_nameMap := (u_nameMap this)(n \<mapsto> i)\<rparr>)))"

definition NamedEndpoint_fetch ::
  "case_mapping \<Rightarrow> transport \<Rightarrow> string list \<Rightarrow> NamedEndpoint \<Rightarrow> NamedEndpointParam \<Rightarrow> bool
     \<Rightarrow> (jsval, NamedEndpoint) outcome" where
  "NamedEndpoint_fetch toLowerCase tr log this param cache_flag =
     (let param' = (case param of PStr s \<Rightarrow> PStr (toLowerCase s) | PNum n \<Rightarrow> PNum n)
      in case request tr log
                (BASE_URI @ ''/'' @ resource this @ ''/'' @ ToString (param_value param')) of
           (Inl e, log') \<Rightarrow> (Inl e, log', this)
         | (Inr data, log') \<Rightarrow>
             (case NamedEndpoint_u_cache this data of
                Inl e \<Rightarrow> (Inl e, log', this)
              | Inr this' \<Rightarrow> (Inr data, log', this')))"

text \<open>
  \<^verbatim>\<open>resolve\<close> is inherited: the same body, with \<^verbatim>\<open>this.get\<close> and \<^verbatim>\<open>this.fetch\<close>
  those of the subclass.
\<close>

definition NamedEndpoint_resolve ::
  "case_mapping \<Rightarrow> transport \<Rightarrow> string list \<Rightarrow> NamedEndpoint \<Rightarrow> int \<Rightarrow> (jsval, NamedEndpoint) outcome" where
  "NamedEndpoint_resolve toLowerCase tr log this param =
     (if truthy (NamedEndpoint_get toLowerCase this (PNum param))
      then (Inr (NamedEndpoint_get toLowerCase this (PNum param)), log, this)
      else NamedEndpoint_fetch toLowerCase tr log this (PNum param) True)"

definition NamedEndpoint_list ::
  "transport \<Rightarrow> string list \<Rightarrow> NamedEndpoint \<Rightarrow> int \<Rightarrow> int
     \<Rightarrow> (ApiResourceList, NamedEndpoint) outcome" where
  "NamedEndpoint_list tr log this limit offset =
     (case u_list this of
        Some l \<Rightarrow>
          (Inr \<lparr>count = count l, next = next l, previous = previous l,
                results = slice (results l) offset limit\<rparr>, log, this)
      | None \<Rightarrow>
          (case request tr log (BASE_URI @ ''/'' @ resource this @ ''?'' @
                  URLSearchParams [(''limit'', ToString (Num limit)),
                                   (''offset'', ToString (Num offset))]) of
             (Inl e, log') \<Rightarrow> (Inl e, log', this)
           | (Inr data, log') \<Rightarrow>
               (case new_ApiResourceList data of
                  Inl e \<Rightarrow> (Inl e, log', this)
                | Inr l \<Rightarrow> (Inr l, log', this))))"

definition NamedEndpoint_listAll ::
  "transport \<Rightarrow> string list \<Rightarrow> NamedEndpoint \<Rightarrow> bool \<Rightarrow> (ApiResourceList, NamedEndpoint) outcome" where
  "NamedEndpoint_listAll tr log this cache_flag =
     (case u_list this of
        Some l \<Rightarrow> (Inr l, log, this)
      | None \<Rightarrow>
          (case request tr log (BASE_URI @ ''/'' @ resource this @ ''?limit=1'') of
             (Inl e, log1) \<Rightarrow> (Inl e, log1, this)
           | (Inr d1, log1) \<Rightarrow>
               (case GetV d1 ''count'' of
                  Inl e \<Rightarrow> (Inl e, log1, this)
                | Inr cnt \<Rightarrow>
                    (case request tr log1
                            (BASE_URI @ ''/'' @ resource this @ ''?limit='' @ ToString cnt) of
                       (Inl e, log2) \<Rightarrow> (Inl e, log2, this)
                     | (Inr data, log2) \<Rightarrow>
                         (case new_ApiResourceList data of
                            Inl e \<Rightarrow> (Inl e, log2, this)
                          | Inr l \<Rightarrow>
                              (Inr l, log2,
                               if cache_flag then this\<lparr>u_list := Some l\<rparr> else this))))))"

section \<open>Sequences of calls\<close>

text \<open>
  A caller's calls on one endpoint, each awaited before the next: the five methods of
  the public contract, with arguments of their declared types (\<^verbatim>\<open>_cache\<close> is the hook
  that \<^verbatim>\<open>fetch\<close> calls). A state is the log of the transport together with the
  endpoint; the states reachable from a new endpoint are those some sequence of calls
  leads to, under some transport.
\<close>

datatype Endpoint_call =
    Get int
  | Resolve int
  | Fetch int bool
  | List int int
  | ListAll bool

fun Endpoint_step :: "transport \<Rightarrow> string list \<times> Endpoint \<Rightarrow> Endpoint_call \<Rightarrow> string list \<times> Endpoint" where
  "Endpoint_step tr (log, this) (Get i) = (log, this)"
| "Endpoint_step tr (log, this) (Resolve i) = snd (Endpoint_resolve tr log this i)"
| "Endpoint_step tr (log, this) (Fetch i c) = snd (Endpoint_fetch tr log this i c)"
| "Endpoint_step tr (log, this) (List l off) = snd (Endpoint_list tr log this l off)"
| "Endpoint_step tr (log, this) (ListAll c) = snd (Endpoint_listAll tr log this c)"


datatype NamedEndpoint_call =
    NGet NamedEndpointParam
  | NResolve int
  | NFetch NamedEndpointParam bool
  | NList int int
  | NListAll bool

fun NamedEndpoint_step ::
  "case_mapping \<Rightarrow> transport \<Rightarrow> string list \<times> NamedEndpoint \<Rightarrow> NamedEndpoint_call
     \<Rightarrow> string list \<times> NamedEndpoint" where
  "NamedEndpoint_step toLowerCase tr (log, this) (NGet p) = (log, this)"
| "NamedEndpoint_step toLowerCase tr (log, this) (NResolve i) = snd (NamedEndpoint_resolve toLowerCase tr log this i)"
| "NamedEndpoint_step toLowerCase tr (log, this) (NFetch p c) = snd (NamedEndpoint_fetch toLowerCase tr log this p c)"
| "NamedEndpoint_step toLowerCase tr (log, this) (NList l off) = snd (NamedEndpoint_list tr log this l off)"
| "NamedEndpoint_step toLowerCase tr (log, this) (NListAll c) = snd (NamedEndpoint_listAll tr log this c)"

definition NamedEndpoint_calls ::
  "case_mapping \<Rightarrow> transport \<Rightarrow> string list \<times> NamedEndpoint \<Rightarrow> NamedEndpoint_call list
     \<Rightarrow> string list \<times> NamedEndpoint" where
  "NamedEndpoint_calls toLowerCase tr st calls = foldl (NamedEndpoint_step toLowerCase tr) st calls"

section \<open>Requests, transports and invariants\<close>

text \<open>The URLs of the three kinds of request that \<^verbatim>\<open>listAll\<close> and \<^verbatim>\<open>fetch\<close> make.\<close>

abbreviation count_url :: "string \<Rightarrow> string" where
  "count_url r \<equiv> BASE_URI @ ''/'' @ r @ ''?limit=1''"

abbreviation all_url :: "string \<Rightarrow> jsval \<Rightarrow> string" where
  "all_url r cnt \<equiv> BASE_URI @ ''/'' @ r @ ''?limit='' @ ToString cnt"

abbreviation resource_url :: "string \<Rightarrow> jsval \<Rightarrow> string" where
  "resource_url r p \<equiv> BASE_URI @ ''/'' @ r @ ''/'' @ ToString p"


text \<open>
  What a transport can deliver, and two conditions on the names it delivers: each is
  already in lower case, and a name belongs to one id.
\<close>

definition delivers :: "transport \<Rightarrow> jsval \<Rightarrow> bool" where
  "delivers tr data = (\<exists>log url. tr log url = Inr data)"

definition names_lower_case :: "case_mapping \<Rightarrow> transport \<Rightarrow> bool" where
  "names_lower_case toLowerCase tr =
     (\<forall>data n. delivers tr data \<and> GetV data ''name'' = Inr (Str n) \<longrightarrow> toLowerCase n = n)"

definition names_identify :: "transport \<Rightarrow> bool" where
  "names_identify tr =
     (\<forall>d d' n. delivers tr d \<and> delivers tr d' \<and>
        GetV d ''name'' = Inr (Str n) \<and> GetV d' ''name'' = Inr (Str n) \<longrightarrow>
        GetV d ''id'' = GetV d' ''id'')"

text \<open>
  Every entry of the cache was delivered by the transport and is stored under its own
  \<^verbatim>\<open>id\<close>, and the name map sends its name, when it is a string, to that id.
\<close>

definition name_indexed :: "transport \<Rightarrow> NamedEndpoint \<Rightarrow> bool" where
  "name_indexed tr this =
     (\<forall>k r. cache this k = Some r \<longrightarrow>
        delivers tr r \<and> GetV r ''id'' = Inr k \<and>
        (\<forall>n. GetV r ''name'' = Inr (Str n) \<longrightarrow> u_nameMap this (Str n) = Some k))"

text \<open>What one call can do to the cache and the name map.\<close>

definition stores :: "transport \<Rightarrow> NamedEndpoint \<Rightarrow> NamedEndpoint \<Rightarrow> bool" where
  "stores tr this this' =
     ((cache this' = cache this \<and> u_nameMap this' = u_nameMap this) \<or>
      (\<exists>data k n. delivers tr data \<and> GetV data ''id'' = Inr k \<and> GetV data ''name'' = Inr n \<and>
         cache this' = (cache this)(k \<mapsto> data) \<and>
         u_nameMap this' = (u_nameMap this)(n \<mapsto> k)))"

section \<open>Example data\<close>

text \<open>
  A small berry category with the transport that serves it, for the concrete instances
  below. The identities of the decoded objects play no part in them.
\<close>

text \<open>
  The case mapping of the instances: on a string of ASCII characters
  \<^verbatim>\<open>String.prototype.toLowerCase\<close> turns the letters A to Z into a to z and leaves
  every other character. The instances hold ASCII strings only.
\<close>

definition toLowerCase_ascii_char :: "char \<Rightarrow> char" where
  "toLowerCase_ascii_char c =
     (let n = (of_char c :: nat) in if 65 \<le> n \<and> n \<le> 90 then char_of (n + 32) else c)"

definition toLowerCase_ascii :: case_mapping where
  "toLowerCase_ascii s = map toLowerCase_ascii_char s"

definition cheri :: jsval where
  "cheri = Obj 1 [(''id'', Num 1), (''name'', Str ''cheri'')]"

definition chesto :: jsval where
  "chesto = Obj 2 [(''id'', Num 2), (''name'', Str ''chesto'')]"

definition berry_first :: jsval where
  "berry_first =
     Obj 10 [(''count'', Num 2), (''next'', Str ''https://pokeapi.co/api/v2/berry?offset=1&limit=1''),
             (''previous'', Null),
             (''results'', Arr 11 [Obj 12 [(''name'', Str ''cheri'')]])]"

definition berry_all :: jsval where
  "berry_all =
     Obj 20 [(''count'', Num 2), (''next'', Null), (''previous'', Null),
             (''results'', Arr 21 [Obj 22 [(''name'', Str ''cheri'')],
                                   Obj 23 [(''name'', Str ''chesto'')]])]"

definition berry_listing :: ApiResourceList where
  "berry_listing =
     \<lparr>count = Num 2, next = Null, previous = Null,
      results = [Obj 22 [(''name'', Str ''cheri'')], Obj 23 [(''name'', Str ''chesto'')]]\<rparr>"

definition berry_transport :: transport where
  "berry_transport log url =
     (if url = ''https://pokeapi.co/api/v2/berry/1'' then Inr cheri
      else if url = ''https://pokeapi.co/api/v2/berry/cheri'' then Inr cheri
      else if url = ''https://pokeapi.co/api/v2/berry/2'' then Inr chesto
      else if url = ''https://pokeapi.co/api/v2/berry?limit=1'' then Inr berry_first
      else if url = ''https://pokeapi.co/api/v2/berry?limit=2'' then Inr berry_all
      else if url = ''https://pokeapi.co/api/v2/berry/'' then Inr berry_all
      else Inl (Rejected ''invalid json response body''))"

definition berry_log :: "string list" where
  "berry_log = [''https://pokeapi.co/api/v2/berry?limit=1'', ''https://pokeapi.co/api/v2/berry?limit=2'']"

text \<open>A transport that is down, and one that goes down after its first answer.\<close>

definition offline_transport :: transport where
  "offline_transport log url = Inl (Rejected ''ECONNREFUSED'')"

definition flaky_transport :: transport where
  "flaky_transport log url = (if log = [] then Inr berry_first else Inl (Rejected ''ECONNRESET''))"

definition berry_cached :: Endpoint where
  "berry_cached = \<lparr>resource = ''berry'', u_list = None, cache = [Num 1 \<mapsto> cheri]\<rparr>"

definition berry_named_cached :: NamedEndpoint where
  "berry_named_cached =
     \<lparr>resource = ''berry'', u_list = None, cache = [Num 1 \<mapsto> cheri],
      u_nameMap = [Str ''cheri'' \<mapsto> Num 1]\<rparr>"




text \<open>A resource whose name has a capital letter, and one without a name.\<close>

definition cheri_capital :: jsval where
  "cheri_capital = Obj 4 [(''id'', Num 1), (''name'', Str ''Cheri'')]"

definition capital_transport :: transport where
  "capital_transport log url = Inr cheri_capital"

definition anonymous :: jsval where
  "anonymous = Obj 5 [(''id'', Num 3)]"

definition anonymous_transport :: transport where
  "anonymous_transport log url = Inr anonymous"

text \<open>A \<^verbatim>\<open>NamedEndpoint\<close> that has fetched the listing as if it were a resource.\<close>

definition berry_listing_cached :: NamedEndpoint where
  "berry_listing_cached =
     \<lparr>resource = ''berry'', u_list = None, cache = [Undefined \<mapsto> berry_all],
      u_nameMap = [Undefined \<mapsto> Undefined]\<rparr>"

text \<open>A second resource delivered under the name of the first.\<close>

definition cheri_twin :: jsval where
  "cheri_twin = Obj 6 [(''id'', Num 2), (''name'', Str ''cheri'')]"

definition twin_transport :: transport where
  "twin_transport log url = (if log = [] then Inr cheri else Inr cheri_twin)"

section \<open>listAll\<close>

lemma digits_2: "digits 2 = ''2''"
  by code_simp

lemma new_ApiResourceList_berry_all: "new_ApiResourceList berry_all = Inr berry_listing"
  by (simp add: new_ApiResourceList_def berry_all_def berry_listing_def property_def)

lemma Endpoint_listAll_snapshot:
  "u_list this = Some l \<Longrightarrow> Endpoint_listAll tr log this c = (Inr l, log, this)"
  by (simp add: Endpoint_listAll_def)

lemma Endpoint_listAll_fresh:
  assumes "u_list this = None"
    and "tr log (count_url (resource this)) = Inr first"
    and "GetV first ''count'' = Inr cnt"
    and "tr (log @ [count_url (resource this)]) (all_url (resource this) cnt) = Inr second"
    and "new_ApiResourceList second = Inr l"
  shows "Endpoint_listAll tr log this c =
           (Inr l, log @ [count_url (resource this), all_url (resource this) cnt],
            if c then this\<lparr>u_list := Some l\<rparr> else this)"
  using assms by (simp add: Endpoint_listAll_def request_def)

lemma Endpoint_listAll_first_fails:
  assumes "u_list this = None" and "tr log (count_url (resource this)) = Inl e"
  shows "Endpoint_listAll tr log this c = (Inl e, log @ [count_url (resource this)], this)"
  using assms by (simp add: Endpoint_listAll_def request_def)

lemma Endpoint_listAll_second_fails:
  assumes "u_list this = None"
    and "tr log (count_url (resource this)) = Inr first"
    and "GetV first ''count'' = Inr cnt"
    and "tr (log @ [count_url (resource this)]) (all_url (resource this) cnt) = Inl e"
  shows "Endpoint_listAll tr log this c =
           (Inl e, log @ [count_url (resource this), all_url (resource this) cnt], this)"
  using assms by (simp add: Endpoint_listAll_def request_def)

lemma NamedEndpoint_listAll_snapshot:
  "u_list this = Some l \<Longrightarrow> NamedEndpoint_listAll tr log this c = (Inr l, log, this)"
  by (simp add: NamedEndpoint_listAll_def)

lemma NamedEndpoint_listAll_fresh:
  assumes "u_list this = None"
    and "tr log (count_url (resource this)) = Inr first"
    and "GetV first ''count'' = Inr cnt"
    and "tr (log @ [count_url (resource this)]) (all_url (resource this) cnt) = Inr second"
    and "new_ApiResourceList second = Inr l"
  shows "NamedEndpoint_listAll tr log this c =
           (Inr l, log @ [count_url (resource this), all_url (resource this) cnt],
            if c then this\<lparr>u_list := Some l\<rparr> else this)"
  using assms by (simp add: NamedEndpoint_listAll_def request_def)

lemma NamedEndpoint_listAll_first_fails:
  assumes "u_list this = None" and "tr log (count_url (resource this)) = Inl e"
  shows "NamedEndpoint_listAll tr log this c = (Inl e, log @ [count_url (resource this)], this)"
  using assms by (simp add: NamedEndpoint_listAll_def request_def)

lemma NamedEndpoint_listAll_second_fails:
  assumes "u_list this = None"
    and "tr log (count_url (resource this)) = Inr first"
    and "GetV first ''count'' = Inr cnt"
    and "tr (log @ [count_url (resource this)]) (all_url (resource this) cnt) = Inl e"
  shows "NamedEndpoint_listAll tr log this c =
           (Inl e, log @ [count_url (resource this), all_url (resource this) cnt], this)"
  using assms by (simp add: NamedEndpoint_listAll_def request_def)

text \<open>
  Claim C1. On either endpoint, \<^verbatim>\<open>listAll\<close> returns the snapshot it holds, with no
  transport call, when there is one. When there is none and both requests succeed, it
  makes exactly two requests, one after the other: the first with \<^verbatim>\<open>limit=1\<close>, whose
  answer gives \<open>count\<close>, the second with \<^verbatim>\<open>limit=\<close> that count. The listing built
  from the second answer is returned and, when the flag is true, stored as the
  snapshot; a second \<^verbatim>\<open>listAll\<close> then returns that same listing and leaves the log
  at those two requests.
\<close>

theorem listAll_two_calls_then_snapshot:
  fixes this :: Endpoint and that :: NamedEndpoint
  shows
  "(u_list this = Some l \<longrightarrow> Endpoint_listAll tr log this c = (Inr l, log, this)) \<and>
   (u_list this = None \<and> tr log (count_url (resource this)) = Inr first \<and>
    GetV first ''count'' = Inr cnt \<and>
    tr (log @ [count_url (resource this)]) (all_url (resource this) cnt) = Inr second \<and>
    new_ApiResourceList second = Inr l' \<longrightarrow>
      Endpoint_listAll tr log this c =
        (Inr l', log @ [count_url (resource this), all_url (resource this) cnt],
         if c then this\<lparr>u_list := Some l'\<rparr> else this) \<and>
      Endpoint_listAll tr (log @ [count_url (resource this), all_url (resource this) cnt])
          (this\<lparr>u_list := Some l'\<rparr>) c' =
        (Inr l', log @ [count_url (resource this), all_url (resource this) cnt],
         this\<lparr>u_list := Some l'\<rparr>)) \<and>
   (u_list that = Some l \<longrightarrow> NamedEndpoint_listAll tr log that c = (Inr l, log, that)) \<and>
   (u_list that = None \<and> tr log (count_url (resource that)) = Inr first \<and>
    GetV first ''count'' = Inr cnt \<and>
    tr (log @ [count_url (resource that)]) (all_url (resource that) cnt) = Inr second \<and>
    new_ApiResourceList second = Inr l' \<longrightarrow>
      NamedEndpoint_listAll tr log that c =
        (Inr l', log @ [count_url (resource that), all_url (resource that) cnt],
         if c then that\<lparr>u_list := Some l'\<rparr> else that) \<and>
      NamedEndpoint_listAll tr (log @ [count_url (resource that), all_url (resource that) cnt])
          (that\<lparr>u_list := Some l'\<rparr>) c' =
        (Inr l', log @ [count_url (resource that), all_url (resource that) cnt],
         that\<lparr>u_list := Some l'\<rparr>))"
proof (intro conjI impI)
  assume "u_list this = Some l"
  then show "Endpoint_listAll tr log this c = (Inr l, log, this)"
    by (rule Endpoint_listAll_snapshot)
next
  assume h: "u_list this = None \<and> tr log (count_url (resource this)) = Inr first \<and>
    GetV first ''count'' = Inr cnt \<and>
    tr (log @ [count_url (resource this)]) (all_url (resource this) cnt) = Inr second \<and>
    new_ApiResourceList second = Inr l'"
  then show "Endpoint_listAll tr log this c =
        (Inr l', log @ [count_url (resource this), all_url (resource this) cnt],
         if c then this\<lparr>u_list := Some l'\<rparr> else this)"
    by (simp add: Endpoint_listAll_fresh)
  show "Endpoint_listAll tr (log @ [count_url (resource this), all_url (resource this) cnt])
          (this\<lparr>u_list := Some l'\<rparr>) c' =
        (Inr l', log @ [count_url (resource this), all_url (resource this) cnt],
         this\<lparr>u_list := Some l'\<rparr>)"
    by (simp add: Endpoint_listAll_snapshot)
next
  assume "u_list that = Some l"
  then show "NamedEndpoint_listAll tr log that c = (Inr l, log, that)"
    by (rule NamedEndpoint_listAll_snapshot)
next
  assume h: "u_list that = None \<and> tr log (count_url (resource that)) = Inr first \<and>
    GetV first ''count'' = Inr cnt \<and>
    tr (log @ [count_url (resource that)]) (all_url (resource that) cnt) = Inr second \<and>
    new_ApiResourceList second = Inr l'"
  then show "NamedEndpoint_listAll tr log that c =
        (Inr l', log @ [count_url (resource that), all_url (resource that) cnt],
         if c then that\<lparr>u_list := Some l'\<rparr> else that)"
    by (simp add: NamedEndpoint_listAll_fresh)
  show "NamedEndpoint_listAll tr (log @ [count_url (resource that), all_url (resource that) cnt])
          (that\<lparr>u_list := Some l'\<rparr>) c' =
        (Inr l', log @ [count_url (resource that), all_url (resource that) cnt],
         that\<lparr>u_list := Some l'\<rparr>)"
    by (simp add: NamedEndpoint_listAll_snapshot)
qed

text \<open>The instance: the berry category, from a new endpoint of either class.\<close>

lemma berry_count: "GetV berry_first ''count'' = Inr (Num 2)"
  by (simp add: berry_first_def property_def)

theorem listAll_two_calls_then_snapshot_witness:
  "Endpoint_listAll berry_transport [] (new_Endpoint ''berry'') True =
     (Inr berry_listing, berry_log, (new_Endpoint ''berry'')\<lparr>u_list := Some berry_listing\<rparr>) \<and>
   Endpoint_listAll berry_transport berry_log
       ((new_Endpoint ''berry'')\<lparr>u_list := Some berry_listing\<rparr>) True =
     (Inr berry_listing, berry_log, (new_Endpoint ''berry'')\<lparr>u_list := Some berry_listing\<rparr>) \<and>
   NamedEndpoint_listAll berry_transport [] (new_NamedEndpoint ''berry'') True =
     (Inr berry_listing, berry_log, (new_NamedEndpoint ''berry'')\<lparr>u_list := Some berry_listing\<rparr>) \<and>
   NamedEndpoint_listAll berry_transport berry_log
       ((new_NamedEndpoint ''berry'')\<lparr>u_list := Some berry_listing\<rparr>) True =
     (Inr berry_listing, berry_log, (new_NamedEndpoint ''berry'')\<lparr>u_list := Some berry_listing\<rparr>)"
  using
    listAll_two_calls_then_snapshot [where
      this = "new_Endpoint ''berry''" and that = "new_NamedEndpoint ''berry''" and
      tr = berry_transport and log = "[]" and c = True and c' = True and
      first = berry_first and cnt = "Num 2" and second = berry_all and l' = berry_listing]
    listAll_two_calls_then_snapshot [where
      this = "(new_Endpoint ''berry'')\<lparr>u_list := Some berry_listing\<rparr>" and
      that = "(new_NamedEndpoint ''berry'')\<lparr>u_list := Some berry_listing\<rparr>" and
      tr = berry_transport and log = berry_log and c = True and l = berry_listing]
    berry_count new_ApiResourceList_berry_all
  by (simp add: berry_transport_def BASE_URI_def new_Endpoint_def new_NamedEndpoint_def
      digits_2 berry_log_def)

lemma Endpoint_listAll_Inl:
  assumes "fst (Endpoint_listAll tr log this c) = Inl e"
  shows "snd (snd (Endpoint_listAll tr log this c)) = this"
proof (cases "u_list this")
  case None
  show ?thesis
  proof (cases "tr log (count_url (resource this))")
    case (Inl e')
    with None show ?thesis by (simp add: Endpoint_listAll_first_fails)
  next
    case (Inr first)
    show ?thesis
    proof (cases "GetV first ''count''")
      case (Inl e')
      with None Inr show ?thesis by (simp add: Endpoint_listAll_def request_def)
    next
      case cnt: (Inr cnt)
      show ?thesis
      proof (cases "tr (log @ [count_url (resource this)]) (all_url (resource this) cnt)")
        case (Inl e')
        with None Inr cnt show ?thesis by (simp add: Endpoint_listAll_second_fails)
      next
        case second: (Inr second)
        with None Inr cnt assms show ?thesis
          by (cases "new_ApiResourceList second")
            (simp_all add: Endpoint_listAll_def request_def)
      qed
    qed
  qed
next
  case (Some l)
  then show ?thesis by (simp add: Endpoint_listAll_snapshot)
qed

lemma NamedEndpoint_listAll_Inl:
  assumes "fst (NamedEndpoint_listAll tr log this c) = Inl e"
  shows "snd (snd (NamedEndpoint_listAll tr log this c)) = this"
proof (cases "u_list this")
  case None
  show ?thesis
  proof (cases "tr log (count_url (resource this))")
    case (Inl e')
    with None show ?thesis by (simp add: NamedEndpoint_listAll_first_fails)
  next
    case (Inr first)
    show ?thesis
    proof (cases "GetV first ''count''")
      case (Inl e')
      with None Inr show ?thesis by (simp add: NamedEndpoint_listAll_def request_def)
    next
      case cnt: (Inr cnt)
      show ?thesis
      proof (cases "tr (log @ [count_url (resource this)]) (all_url (resource this) cnt)")
        case (Inl e')
        with None Inr cnt show ?thesis by (simp add: NamedEndpoint_listAll_second_fails)
      next
        case second: (Inr second)
        with None Inr cnt assms show ?thesis
          by (cases "new_ApiResourceList second")
            (simp_all add: NamedEndpoint_listAll_def request_def)
      qed
    qed
  qed
next
  case (Some l)
  then show ?thesis by (simp add: NamedEndpoint_listAll_snapshot)
qed

text \<open>
  Claim C6. When there is no snapshot and the first request of \<^verbatim>\<open>listAll\<close> is
  rejected, or the first succeeds and the second is rejected, the promise of
  \<^verbatim>\<open>listAll\<close> is rejected with that same error and the endpoint is as it was, so still
  without a snapshot; the log holds the requests made up to the failure. More generally,
  whenever \<^verbatim>\<open>listAll\<close> fails the endpoint is as it was. So it is for both classes.
\<close>

theorem listAll_failure_leaves_no_snapshot:
  fixes this :: Endpoint and that :: NamedEndpoint
  assumes "u_list this = None" and "u_list that = None"
  shows
  "(tr log (count_url (resource this)) = Inl e \<longrightarrow>
      Endpoint_listAll tr log this c = (Inl e, log @ [count_url (resource this)], this)) \<and>
   (tr log (count_url (resource this)) = Inr first \<and> GetV first ''count'' = Inr cnt \<and>
    tr (log @ [count_url (resource this)]) (all_url (resource this) cnt) = Inl e \<longrightarrow>
      Endpoint_listAll tr log this c =
        (Inl e, log @ [count_url (resource this), all_url (resource this) cnt], this)) \<and>
   (fst (Endpoint_listAll tr log this c) = Inl e \<longrightarrow>
      u_list (snd (snd (Endpoint_listAll tr log this c))) = None \<and>
      snd (snd (Endpoint_listAll tr log this c)) = this) \<and>
   (tr log (count_url (resource that)) = Inl e \<longrightarrow>
      NamedEndpoint_listAll tr log that c = (Inl e, log @ [count_url (resource that)], that)) \<and>
   (tr log (count_url (resource that)) = Inr first \<and> GetV first ''count'' = Inr cnt \<and>
    tr (log @ [count_url (resource that)]) (all_url (resource that) cnt) = Inl e \<longrightarrow>
      NamedEndpoint_listAll tr log that c =
        (Inl e, log @ [count_url (resource that), all_url (resource that) cnt], that)) \<and>
   (fst (NamedEndpoint_listAll tr log that c) = Inl e \<longrightarrow>
      u_list (snd (snd (NamedEndpoint_listAll tr log that c))) = None \<and>
      snd (snd (NamedEndpoint_listAll tr log that c)) = that)"
  using assms
  by (simp add: Endpoint_listAll_first_fails Endpoint_listAll_second_fails
      NamedEndpoint_listAll_first_fails NamedEndpoint_listAll_second_fails
      Endpoint_listAll_Inl NamedEndpoint_listAll_Inl)

theorem listAll_failure_leaves_no_snapshot_witness:
  "Endpoint_listAll offline_transport [] (new_Endpoint ''berry'') True =
     (Inl (Rejected ''ECONNREFUSED''), [''https://pokeapi.co/api/v2/berry?limit=1''],
      new_Endpoint ''berry'') \<and>
   Endpoint_listAll flaky_transport [] (new_Endpoint ''berry'') True =
     (Inl (Rejected ''ECONNRESET''), berry_log, new_Endpoint ''berry'') \<and>
   NamedEndpoint_listAll offline_transport [] (new_NamedEndpoint ''berry'') True =
     (Inl (Rejected ''ECONNREFUSED''), [''https://pokeapi.co/api/v2/berry?limit=1''],
      new_NamedEndpoint ''berry'') \<and>
   NamedEndpoint_listAll flaky_transport [] (new_NamedEndpoint ''berry'') True =
     (Inl (Rejected ''ECONNRESET''), berry_log, new_NamedEndpoint ''berry'') \<and>
   u_list (new_Endpoint ''berry'') = None \<and> u_list (new_NamedEndpoint ''berry'') = None"
  using
    listAll_failure_leaves_no_snapshot [where
      this = "new_Endpoint ''berry''" and that = "new_NamedEndpoint ''berry''" and
      tr = offline_transport and log = "[]" and c = True and e = "Rejected ''ECONNREFUSED''"]
    listAll_failure_leaves_no_snapshot [where
      this = "new_Endpoint ''berry''" and that = "new_NamedEndpoint ''berry''" and
      tr = flaky_transport and log = "[]" and c = True and e = "Rejected ''ECONNRESET''" and
      first = berry_first and cnt = "Num 2"]
    berry_count
  by (simp add: offline_transport_def flaky_transport_def BASE_URI_def new_Endpoint_def
      new_NamedEndpoint_def digits_2 berry_log_def)

section \<open>list\<close>

lemma slice_nonneg:
  assumes "0 \<le> start" and "0 \<le> fin"
  shows "slice xs start fin = drop (nat start) (take (nat fin) xs)"
proof -
  have "take (nat (min fin (int (length xs)) - min start (int (length xs))))
          (drop (nat (min start (int (length xs)))) xs) =
        take (nat fin - nat start) (drop (nat start) xs)"
  proof (cases "nat start < length xs")
    case True
    then have "min start (int (length xs)) = start"
      using assms by linarith
    moreover have "take (nat (min fin (int (length xs)) - start)) (drop (nat start) xs) =
                   take (nat fin - nat start) (drop (nat start) xs)"
    proof (cases "nat fin \<le> length xs")
      case True
      then have "min fin (int (length xs)) = fin" using assms by linarith
      moreover have "nat (fin - start) = nat fin - nat start" using assms by linarith
      ultimately show ?thesis by simp
    next
      case False
      then have m: "min fin (int (length xs)) = int (length xs)" using assms by linarith
      have "nat (int (length xs) - start) = length (drop (nat start) xs)"
        using assms by simp
      moreover have "length (drop (nat start) xs) \<le> nat fin - nat start"
        using False by simp
      ultimately show ?thesis using m by simp
    qed
    ultimately show ?thesis by simp
  next
    case False
    then show ?thesis by simp
  qed
  then show ?thesis
    using assms by (simp add: slice_def Let_def drop_take)
qed

lemma Endpoint_list_snapshot:
  "u_list this = Some l \<Longrightarrow>
   Endpoint_list tr log this limit offset =
     (Inr \<lparr>count = count l, next = next l, previous = previous l,
           results = slice (results l) offset limit\<rparr>, log, this)"
  by (simp add: Endpoint_list_def)

lemma NamedEndpoint_list_snapshot:
  "u_list this = Some l \<Longrightarrow>
   NamedEndpoint_list tr log this limit offset =
     (Inr \<lparr>count = count l, next = next l, previous = previous l,
           results = slice (results l) offset limit\<rparr>, log, this)"
  by (simp add: NamedEndpoint_list_def)

text \<open>
  Claim C5. With a snapshot, \<^verbatim>\<open>list(limit, offset)\<close> of either class makes no request
  and leaves the endpoint as it is; its listing has the snapshot's \<open>count\<close>,
  \<open>next\<close> and \<open>previous\<close>, and as \<open>results\<close> the snapshot's results sliced from
  \<open>offset\<close> to \<open>limit\<close>: for indices that are not negative, the elements at the
  positions from \<open>offset\<close> up to, not including, \<open>limit\<close>.
\<close>

theorem list_slices_snapshot_from_offset_to_limit:
  fixes this :: Endpoint and that :: NamedEndpoint
  shows
  "(u_list this = Some l \<longrightarrow>
      Endpoint_list tr log this limit offset =
        (Inr \<lparr>count = count l, next = next l, previous = previous l,
              results = slice (results l) offset limit\<rparr>, log, this)) \<and>
   (u_list that = Some l \<longrightarrow>
      NamedEndpoint_list tr log that limit offset =
        (Inr \<lparr>count = count l, next = next l, previous = previous l,
              results = slice (results l) offset limit\<rparr>, log, that)) \<and>
   (0 \<le> offset \<and> 0 \<le> limit \<longrightarrow>
      slice (results l) offset limit = drop (nat offset) (take (nat limit) (results l)))"
  by (simp add: Endpoint_list_snapshot NamedEndpoint_list_snapshot slice_nonneg)

theorem list_slices_snapshot_from_offset_to_limit_witness:
  "Endpoint_list berry_transport berry_log
       ((new_Endpoint ''berry'')\<lparr>u_list := Some berry_listing\<rparr>) 2 1 =
     (Inr \<lparr>count = Num 2, next = Null, previous = Null,
           results = [Obj 23 [(''name'', Str ''chesto'')]]\<rparr>,
      berry_log, (new_Endpoint ''berry'')\<lparr>u_list := Some berry_listing\<rparr>) \<and>
   NamedEndpoint_list berry_transport berry_log
       ((new_NamedEndpoint ''berry'')\<lparr>u_list := Some berry_listing\<rparr>) 1 1 =
     (Inr \<lparr>count = Num 2, next = Null, previous = Null, results = []\<rparr>,
      berry_log, (new_NamedEndpoint ''berry'')\<lparr>u_list := Some berry_listing\<rparr>)"
  using
    list_slices_snapshot_from_offset_to_limit [where
      this = "(new_Endpoint ''berry'')\<lparr>u_list := Some berry_listing\<rparr>" and
      that = "(new_NamedEndpoint ''berry'')\<lparr>u_list := Some berry_listing\<rparr>" and
      l = berry_listing and tr = berry_transport and log = berry_log and
      limit = 2 and offset = 1]
    list_slices_snapshot_from_offset_to_limit [where
      this = "(new_Endpoint ''berry'')\<lparr>u_list := Some berry_listing\<rparr>" and
      that = "(new_NamedEndpoint ''berry'')\<lparr>u_list := Some berry_listing\<rparr>" and
      l = berry_listing and tr = berry_transport and log = berry_log and
      limit = 1 and offset = 1]
  by (simp add: berry_listing_def new_Endpoint_def new_NamedEndpoint_def)

section \<open>fetch\<close>

lemma Endpoint_fetch_flag: "Endpoint_fetch tr log this i c = Endpoint_fetch tr log this i c'"
  by (simp add: Endpoint_fetch_def)

lemma NamedEndpoint_fetch_flag:
  "NamedEndpoint_fetch toLowerCase tr log this p c = NamedEndpoint_fetch toLowerCase tr log this p c'"
  by (simp add: NamedEndpoint_fetch_def)

lemma Endpoint_fetch_Inr:
  assumes "Endpoint_fetch tr log this i c = (Inr data, log', this')"
  shows "\<exists>k. GetV data ''id'' = Inr k \<and> this' = this\<lparr>cache := (cache this)(k \<mapsto> data)\<rparr> \<and>
             tr log (resource_url (resource this) (Num i)) = Inr data \<and>
             log' = log @ [resource_url (resource this) (Num i)]"
  using assms
  by (auto simp: Endpoint_fetch_def request_def Endpoint_u_cache_def split: sum.splits)

lemma NamedEndpoint_fetch_Inr:
  assumes "NamedEndpoint_fetch toLowerCase tr log this p c = (Inr data, log', this')"
  shows "\<exists>k n url. GetV data ''id'' = Inr k \<and> GetV data ''name'' = Inr n \<and>
             this' = this\<lparr>cache := (cache this)(k \<mapsto> data),
                          u_nameMap := (u_nameMap this)(n \<mapsto> k)\<rparr> \<and>
             tr log url = Inr data \<and> log' = log @ [url]"
  using assms
  by (auto simp: NamedEndpoint_fetch_def request_def NamedEndpoint_u_cache_def Let_def
      split: sum.splits)

lemma NamedEndpoint_fetch_Inl:
  assumes "NamedEndpoint_fetch toLowerCase tr log this p c = (Inl e, log', this')"
  shows "this' = this"
  using assms
  by (auto simp: NamedEndpoint_fetch_def request_def NamedEndpoint_u_cache_def Let_def
      split: sum.splits)

text \<open>
  Claim C4. The flag of \<^verbatim>\<open>fetch\<close> is never read: with either value the call does the
  same. A \<^verbatim>\<open>fetch\<close> that succeeds has put the decoded resource into the cache under
  the value of its \<^verbatim>\<open>id\<close> property, on both classes, and has changed nothing else of
  an \<^verbatim>\<open>Endpoint\<close>.
\<close>

theorem fetch_caches_whatever_the_flag:
  fixes this :: Endpoint and that :: NamedEndpoint
  shows
  "Endpoint_fetch tr log this i c = Endpoint_fetch tr log this i False \<and>
   Endpoint_fetch tr log this i c = Endpoint_fetch tr log this i True \<and>
   (Endpoint_fetch tr log this i c = (Inr data, log', this') \<longrightarrow>
      (\<exists>k. GetV data ''id'' = Inr k \<and> this' = this\<lparr>cache := (cache this)(k \<mapsto> data)\<rparr>)) \<and>
   NamedEndpoint_fetch toLowerCase tr log that p c = NamedEndpoint_fetch toLowerCase tr log that p False \<and>
   NamedEndpoint_fetch toLowerCase tr log that p c = NamedEndpoint_fetch toLowerCase tr log that p True \<and>
   (NamedEndpoint_fetch toLowerCase tr log that p c = (Inr data, log', that') \<longrightarrow>
      (\<exists>k. GetV data ''id'' = Inr k \<and> cache that' = (cache that)(k \<mapsto> data)))"
proof (intro conjI impI)
  assume "Endpoint_fetch tr log this i c = (Inr data, log', this')"
  from Endpoint_fetch_Inr [OF this]
  show "\<exists>k. GetV data ''id'' = Inr k \<and> this' = this\<lparr>cache := (cache this)(k \<mapsto> data)\<rparr>"
    by blast
next
  assume "NamedEndpoint_fetch toLowerCase tr log that p c = (Inr data, log', that')"
  from NamedEndpoint_fetch_Inr [OF this]
  show "\<exists>k. GetV data ''id'' = Inr k \<and> cache that' = (cache that)(k \<mapsto> data)"
    by auto
qed (rule Endpoint_fetch_flag NamedEndpoint_fetch_flag)+

lemma digits_Suc_0: "digits (Suc 0) = ''1''"
  by code_simp

lemma cheri_id: "GetV cheri ''id'' = Inr (Num 1)"
  by (simp add: cheri_def property_def)

lemma cheri_name: "GetV cheri ''name'' = Inr (Str ''cheri'')"
  by (simp add: cheri_def property_def)

lemma Endpoint_fetch_berry:
  "Endpoint_fetch berry_transport [] (new_Endpoint ''berry'') 1 c =
     (Inr cheri, [''https://pokeapi.co/api/v2/berry/1''], berry_cached)"
  by (simp add: Endpoint_fetch_def request_def berry_transport_def BASE_URI_def
      new_Endpoint_def digits_Suc_0 Endpoint_u_cache_def cheri_id berry_cached_def)

lemma toLowerCase_CHERI: "toLowerCase_ascii ''CHERI'' = ''cheri''"
  by code_simp

lemma NamedEndpoint_fetch_berry:
  "NamedEndpoint_fetch toLowerCase_ascii berry_transport [] (new_NamedEndpoint ''berry'') (PStr ''CHERI'') c =
     (Inr cheri, [''https://pokeapi.co/api/v2/berry/cheri''], berry_named_cached)"
  by (simp add: NamedEndpoint_fetch_def request_def berry_transport_def BASE_URI_def
      new_NamedEndpoint_def toLowerCase_CHERI NamedEndpoint_u_cache_def cheri_id cheri_name
      berry_named_cached_def)

theorem fetch_caches_whatever_the_flag_witness:
  "Endpoint_fetch berry_transport [] (new_Endpoint ''berry'') 1 False =
     (Inr cheri, [''https://pokeapi.co/api/v2/berry/1''], berry_cached) \<and>
   berry_cached = (new_Endpoint ''berry'')\<lparr>cache := (cache (new_Endpoint ''berry''))(Num 1 \<mapsto> cheri)\<rparr> \<and>
   NamedEndpoint_fetch toLowerCase_ascii berry_transport [] (new_NamedEndpoint ''berry'') (PStr ''CHERI'') False =
     (Inr cheri, [''https://pokeapi.co/api/v2/berry/cheri''], berry_named_cached) \<and>
   cache berry_named_cached = (cache (new_NamedEndpoint ''berry''))(Num 1 \<mapsto> cheri)"
  using
    fetch_caches_whatever_the_flag [where
      toLowerCase = toLowerCase_ascii and tr = berry_transport and log = "[]" and this = "new_Endpoint ''berry''" and i = 1 and
      c = False and data = cheri and log' = "[''https://pokeapi.co/api/v2/berry/1'']" and
      this' = berry_cached and that = "new_NamedEndpoint ''berry''" and p = "PStr ''CHERI''"]
    fetch_caches_whatever_the_flag [where
      toLowerCase = toLowerCase_ascii and tr = berry_transport and log = "[]" and this = "new_Endpoint ''berry''" and i = 1 and
      c = False and data = cheri and log' = "[''https://pokeapi.co/api/v2/berry/cheri'']" and
      that' = berry_named_cached and that = "new_NamedEndpoint ''berry''" and
      p = "PStr ''CHERI''"]
  by (simp add: Endpoint_fetch_berry NamedEndpoint_fetch_berry cheri_id)

section \<open>The cache of an Endpoint over sequences of calls\<close>


















section \<open>resolve\<close>









section \<open>The name map of a NamedEndpoint\<close>

lemma NamedEndpoint_list_state: "snd (snd (NamedEndpoint_list tr log this limit offset)) = this"
proof (cases "u_list this")
  case None
  then show ?thesis
    by (cases "tr log (BASE_URI @ ''/'' @ resource this @ ''?'' @
                  URLSearchParams [(''limit'', ToString (Num limit)),
                                   (''offset'', ToString (Num offset))])")
       (simp_all add: NamedEndpoint_list_def request_def split: sum.splits)
next
  case (Some l)
  then show ?thesis by (simp add: NamedEndpoint_list_def)
qed

lemma NamedEndpoint_listAll_maps:
  "cache (snd (snd (NamedEndpoint_listAll tr log this c))) = cache this \<and>
   u_nameMap (snd (snd (NamedEndpoint_listAll tr log this c))) = u_nameMap this"
proof (cases "u_list this")
  case None
  show ?thesis
  proof (cases "tr log (count_url (resource this))")
    case (Inl e)
    with None show ?thesis by (simp add: NamedEndpoint_listAll_first_fails)
  next
    case (Inr first)
    show ?thesis
    proof (cases "GetV first ''count''")
      case (Inl e)
      with None Inr show ?thesis by (simp add: NamedEndpoint_listAll_def request_def)
    next
      case cnt: (Inr cnt)
      show ?thesis
      proof (cases "tr (log @ [count_url (resource this)]) (all_url (resource this) cnt)")
        case (Inl e)
        with None Inr cnt show ?thesis by (simp add: NamedEndpoint_listAll_second_fails)
      next
        case second: (Inr second)
        with None Inr cnt show ?thesis
          by (cases "new_ApiResourceList second")
            (simp_all add: NamedEndpoint_listAll_def request_def)
      qed
    qed
  qed
next
  case (Some l)
  then show ?thesis by (simp add: NamedEndpoint_listAll_snapshot)
qed

lemma NamedEndpoint_fetch_stores:
  "stores tr this (snd (snd (NamedEndpoint_fetch toLowerCase tr log this p c)))"
proof (cases "fst (NamedEndpoint_fetch toLowerCase tr log this p c)")
  case (Inl e)
  then have "NamedEndpoint_fetch toLowerCase tr log this p c =
               (Inl e, fst (snd (NamedEndpoint_fetch toLowerCase tr log this p c)),
                snd (snd (NamedEndpoint_fetch toLowerCase tr log this p c)))"
    by (metis prod.collapse)
  from NamedEndpoint_fetch_Inl [OF this] show ?thesis
    by (simp add: stores_def)
next
  case (Inr data)
  then have "NamedEndpoint_fetch toLowerCase tr log this p c =
               (Inr data, fst (snd (NamedEndpoint_fetch toLowerCase tr log this p c)),
                snd (snd (NamedEndpoint_fetch toLowerCase tr log this p c)))"
    by (metis prod.collapse)
  from NamedEndpoint_fetch_Inr [OF this] show ?thesis
    unfolding stores_def delivers_def by (intro disjI2) force
qed

lemma NamedEndpoint_step_stores:
  "stores tr this (snd (NamedEndpoint_step toLowerCase tr (log, this) call))"
proof (cases call)
  case (NGet p)
  then show ?thesis by (simp add: stores_def)
next
  case (NResolve i)
  show ?thesis
  proof (cases "truthy (NamedEndpoint_get toLowerCase this (PNum i))")
    case True
    then show ?thesis using NResolve by (simp add: NamedEndpoint_resolve_def stores_def)
  next
    case False
    then show ?thesis
      using NResolve NamedEndpoint_fetch_stores [where tr = tr and this = this and log = log and p = "PNum i"
          and c = True and toLowerCase = toLowerCase]
      by (simp add: NamedEndpoint_resolve_def)
  qed
next
  case (NFetch p c)
  then show ?thesis
    using NamedEndpoint_fetch_stores [where tr = tr and this = this and log = log and p = p and c = c
        and toLowerCase = toLowerCase] by simp
next
  case (NList l off)
  then show ?thesis by (simp add: NamedEndpoint_list_state stores_def)
next
  case (NListAll c)
  then show ?thesis by (simp add: NamedEndpoint_listAll_maps stores_def)
qed

lemma stores_name_indexed:
  assumes uniq: "names_identify tr" and inv: "name_indexed tr this" and st: "stores tr this this'"
  shows "name_indexed tr this'"
  unfolding name_indexed_def
proof (intro allI impI)
  fix k r
  assume entry: "cache this' k = Some r"
  from st consider
      (same) "cache this' = cache this" "u_nameMap this' = u_nameMap this"
    | (put) data j n where "delivers tr data" "GetV data ''id'' = Inr j"
        "GetV data ''name'' = Inr n" "cache this' = (cache this)(j \<mapsto> data)"
        "u_nameMap this' = (u_nameMap this)(n \<mapsto> j)"
    unfolding stores_def by blast
  then show "delivers tr r \<and> GetV r ''id'' = Inr k \<and>
             (\<forall>n. GetV r ''name'' = Inr (Str n) \<longrightarrow> u_nameMap this' (Str n) = Some k)"
  proof cases
    case same
    with inv entry show ?thesis
      by (simp add: name_indexed_def)
  next
    case put
    show ?thesis
    proof (cases "k = j")
      case True
      with put entry have "r = data" by simp
      with put True show ?thesis by simp
    next
      case False
      with put entry have old: "cache this k = Some r" by simp
      with inv have r: "delivers tr r" "GetV r ''id'' = Inr k"
        and idx: "\<And>m. GetV r ''name'' = Inr (Str m) \<Longrightarrow> u_nameMap this (Str m) = Some k"
        unfolding name_indexed_def by blast+
      have "u_nameMap this' (Str m) = Some k" if m: "GetV r ''name'' = Inr (Str m)" for m
      proof (cases "n = Str m")
        case True
        with uniq r(1) put(1) m put(3) have "GetV r ''id'' = GetV data ''id''"
          unfolding names_identify_def by blast
        with r(2) put(2) False show ?thesis by simp
      next
        case False
        with put(5) idx [OF m] show ?thesis by simp
      qed
      with r show ?thesis by simp
    qed
  qed
qed

lemma NamedEndpoint_calls_snoc:
  "NamedEndpoint_calls toLowerCase tr st (calls @ [call]) =
     NamedEndpoint_step toLowerCase tr (NamedEndpoint_calls toLowerCase tr st calls) call"
  by (simp add: NamedEndpoint_calls_def)

lemma NamedEndpoint_calls_name_indexed:
  assumes "names_identify tr" and "name_indexed tr (snd st)"
  shows "name_indexed tr (snd (NamedEndpoint_calls toLowerCase tr st calls))"
proof (induction calls rule: rev_induct)
  case Nil
  then show ?case using assms by (simp add: NamedEndpoint_calls_def)
next
  case (snoc call calls)
  obtain log this where st: "NamedEndpoint_calls toLowerCase tr st calls = (log, this)"
    by (cases "NamedEndpoint_calls toLowerCase tr st calls")
  with snoc show ?case
    using stores_name_indexed [OF assms(1) _ NamedEndpoint_step_stores [where tr = tr and this = this
        and log = log and call = call and toLowerCase = toLowerCase]]
    by (simp add: NamedEndpoint_calls_snoc)
qed

lemma name_indexed_new: "name_indexed tr (new_NamedEndpoint r)"
  by (simp add: name_indexed_def new_NamedEndpoint_def)

lemma NamedEndpoint_get_after_fetch:
  assumes f: "NamedEndpoint_fetch toLowerCase tr log this p c = (Inr R, log', this')"
    and n: "GetV R ''name'' = Inr (Str n)"
    and m: "toLowerCase m = n"
  shows "NamedEndpoint_get toLowerCase this' (PStr m) = R"
proof -
  from NamedEndpoint_fetch_Inr [OF f] n obtain k where
    "this' = this\<lparr>cache := (cache this)(k \<mapsto> R),
                  u_nameMap := (u_nameMap this)(Str n \<mapsto> k)\<rparr>"
    by auto
  with m show ?thesis
    by (simp add: NamedEndpoint_get_def Map_get_def)
qed

text \<open>
  Where the names come in lower case the name map is as it should be. Let every name
  the transport delivers be its own lower-casing, and let no two resources it delivers
  under different ids have the same name. Then in every state that calls on a new
  \<^verbatim>\<open>NamedEndpoint\<close> lead to, each cached resource with a name is stored under its
  \<^verbatim>\<open>id\<close>, and the name map sends its lower-cased name to that id; and after a
  \<^verbatim>\<open>fetch\<close> that delivered a resource with a name, \<^verbatim>\<open>get\<close> of that name in any
  letter case is that resource.
\<close>

lemma name_index_follows_cache:
  assumes "names_lower_case toLowerCase tr" and "names_identify tr"
    and "NamedEndpoint_calls toLowerCase tr (log0, new_NamedEndpoint res) calls = (log, this)"
  shows "(cache this k = Some r \<and> GetV r ''name'' = Inr (Str n) \<longrightarrow>
            GetV r ''id'' = Inr k \<and> u_nameMap this (Str (toLowerCase n)) = Some k) \<and>
         (NamedEndpoint_fetch toLowerCase tr log this p c = (Inr R, log', this') \<and>
          GetV R ''name'' = Inr (Str n') \<and> toLowerCase m = toLowerCase n' \<longrightarrow>
            NamedEndpoint_get toLowerCase this' (PStr m) = R)"
proof (intro conjI impI)
  assume h: "cache this k = Some r \<and> GetV r ''name'' = Inr (Str n)"
  have "name_indexed tr this"
    using NamedEndpoint_calls_name_indexed [OF assms(2),
        where st = "(log0, new_NamedEndpoint res)" and calls = calls and toLowerCase = toLowerCase]
      assms(3)
    by (simp add: name_indexed_new)
  with h have r: "delivers tr r" "GetV r ''id'' = Inr k" "u_nameMap this (Str n) = Some k"
    unfolding name_indexed_def by blast+
  from assms(1) r(1) h have "toLowerCase n = n"
    unfolding names_lower_case_def by blast
  with r show "GetV r ''id'' = Inr k" and "u_nameMap this (Str (toLowerCase n)) = Some k"
    by simp_all
next
  assume h: "NamedEndpoint_fetch toLowerCase tr log this p c = (Inr R, log', this') \<and>
             GetV R ''name'' = Inr (Str n') \<and> toLowerCase m = toLowerCase n'"
  then have "delivers tr R"
    using NamedEndpoint_fetch_Inr [where tr = tr and log = log and this = this and p = p and c = c
        and data = R and log' = log' and this' = this' and toLowerCase = toLowerCase]
    unfolding delivers_def by blast
  with assms(1) h have "toLowerCase n' = n'"
    unfolding names_lower_case_def by blast
  with h show "NamedEndpoint_get toLowerCase this' (PStr m) = R"
    using NamedEndpoint_get_after_fetch [where tr = tr and log = log and this = this and p = p
        and c = c and R = R and log' = log' and this' = this' and n = n' and m = m
        and toLowerCase = toLowerCase] by simp
qed


text \<open>The instance: the berry transport, whose names are \<open>cheri\<close> and \<open>chesto\<close>.\<close>

lemma delivers_berry:
  "delivers berry_transport d \<Longrightarrow> d = cheri \<or> d = chesto \<or> d = berry_first \<or> d = berry_all"
  by (auto simp: delivers_def berry_transport_def split: if_splits)

lemma berry_names:
  "GetV cheri ''name'' = Inr (Str ''cheri'')" "GetV chesto ''name'' = Inr (Str ''chesto'')"
  "GetV berry_first ''name'' = Inr Undefined" "GetV berry_all ''name'' = Inr Undefined"
  by (simp_all add: cheri_def chesto_def berry_first_def berry_all_def property_def)

lemma berry_ids:
  "GetV cheri ''id'' = Inr (Num 1)" "GetV chesto ''id'' = Inr (Num 2)"
  by (simp_all add: cheri_def chesto_def property_def)

lemma toLowerCase_berries:
  "toLowerCase_ascii ''cheri'' = ''cheri''" "toLowerCase_ascii ''chesto'' = ''chesto''"
  "toLowerCase_ascii ''CHESTO'' = ''chesto''"
  by code_simp+

lemma names_lower_case_berry: "names_lower_case toLowerCase_ascii berry_transport"
  unfolding names_lower_case_def
proof (intro allI impI)
  fix data n
  assume h: "delivers berry_transport data \<and> GetV data ''name'' = Inr (Str n)"
  with delivers_berry [of data] have "n = ''cheri'' \<or> n = ''chesto''"
    by (auto simp: berry_names)
  then show "toLowerCase_ascii n = n"
    by (auto simp: toLowerCase_berries)
qed

lemma names_identify_berry: "names_identify berry_transport"
  unfolding names_identify_def
proof (intro allI impI)
  fix d d' n
  assume h: "delivers berry_transport d \<and> delivers berry_transport d' \<and>
             GetV d ''name'' = Inr (Str n) \<and> GetV d' ''name'' = Inr (Str n)"
  with delivers_berry [of d] have d: "d = cheri \<and> n = ''cheri'' \<or> d = chesto \<and> n = ''chesto''"
    by (auto simp: berry_names)
  from h delivers_berry [of d'] have "d' = cheri \<and> n = ''cheri'' \<or> d' = chesto \<and> n = ''chesto''"
    by (auto simp: berry_names)
  with d show "GetV d ''id'' = GetV d' ''id''"
    by auto
qed

lemma NamedEndpoint_calls_berry:
  "NamedEndpoint_calls toLowerCase_ascii berry_transport ([], new_NamedEndpoint ''berry'')
     [NFetch (PStr ''CHERI'') True] =
     ([''https://pokeapi.co/api/v2/berry/cheri''], berry_named_cached)"
  by (simp add: NamedEndpoint_calls_def NamedEndpoint_fetch_berry)

lemma NamedEndpoint_fetch_berry_2:
  "NamedEndpoint_fetch toLowerCase_ascii berry_transport [''https://pokeapi.co/api/v2/berry/cheri'']
       berry_named_cached (PNum 2) c =
     (Inr chesto,
      [''https://pokeapi.co/api/v2/berry/cheri'', ''https://pokeapi.co/api/v2/berry/2''],
      berry_named_cached\<lparr>cache := (cache berry_named_cached)(Num 2 \<mapsto> chesto),
                         u_nameMap := (u_nameMap berry_named_cached)(Str ''chesto'' \<mapsto> Num 2)\<rparr>)"
  by (simp add: NamedEndpoint_fetch_def request_def berry_transport_def BASE_URI_def
      berry_named_cached_def digits_2 NamedEndpoint_u_cache_def berry_ids berry_names)

lemma name_index_follows_cache_berry:
  "names_lower_case toLowerCase_ascii berry_transport \<and> names_identify berry_transport \<and>
   NamedEndpoint_calls toLowerCase_ascii berry_transport ([], new_NamedEndpoint ''berry'')
     [NFetch (PStr ''CHERI'') True] =
     ([''https://pokeapi.co/api/v2/berry/cheri''], berry_named_cached) \<and>
   cache berry_named_cached (Num 1) = Some cheri \<and>
   GetV cheri ''name'' = Inr (Str ''cheri'') \<and>
   u_nameMap berry_named_cached (Str (toLowerCase_ascii ''cheri'')) = Some (Num 1) \<and>
   GetV chesto ''name'' = Inr (Str ''chesto'') \<and>
   toLowerCase_ascii ''CHESTO'' = toLowerCase_ascii ''chesto'' \<and>
   NamedEndpoint_get toLowerCase_ascii
     (berry_named_cached\<lparr>cache := (cache berry_named_cached)(Num 2 \<mapsto> chesto),
                        u_nameMap := (u_nameMap berry_named_cached)(Str ''chesto'' \<mapsto> Num 2)\<rparr>)
     (PStr ''CHESTO'') = chesto"
proof -
  have a: "cache berry_named_cached (Num 1) = Some cheri"
    by (simp add: berry_named_cached_def)
  show ?thesis
    using
      name_index_follows_cache [OF names_lower_case_berry names_identify_berry
        NamedEndpoint_calls_berry,
        where k = "Num 1" and r = cheri and n = "''cheri''" and p = "PNum 2" and c = True and
          R = chesto and n' = "''chesto''" and m = "''CHESTO''" and
          log' = "[''https://pokeapi.co/api/v2/berry/cheri'', ''https://pokeapi.co/api/v2/berry/2'']"
          and this' = "berry_named_cached\<lparr>cache := (cache berry_named_cached)(Num 2 \<mapsto> chesto),
                         u_nameMap := (u_nameMap berry_named_cached)(Str ''chesto'' \<mapsto> Num 2)\<rparr>"]
      a names_lower_case_berry names_identify_berry
    by (simp add: NamedEndpoint_calls_berry NamedEndpoint_fetch_berry_2 berry_names
        toLowerCase_berries)
qed

lemma toLowerCase_Cheri:
  "toLowerCase_ascii ''Cheri'' = ''cheri''" "toLowerCase_ascii ''CHERI'' = ''cheri''"
  by code_simp+

text \<open>
  Claim C3. Every cached resource with a name is to have an entry of the name map
  under its lower-cased name, sent to its id, so that \<^verbatim>\<open>get\<close> of the name in any
  letter case finds it. \<^verbatim>\<open>_cache\<close> stores the name as it was delivered, where
  \<^verbatim>\<open>get\<close> and \<^verbatim>\<open>fetch\<close> lower-case their argument. So when the transport delivers
  the resource 1 under the name \<open>Cheri\<close>, the name map holds it under that spelling
  and nothing under the lower-cased name, and \<^verbatim>\<open>get\<close> of the name finds nothing, in
  the spelling delivered as in upper case.
\<close>

theorem capital_name_is_not_indexed:
  "NamedEndpoint_fetch toLowerCase_ascii capital_transport [] (new_NamedEndpoint ''berry'') (PNum 1) True =
     (Inr cheri_capital, [''https://pokeapi.co/api/v2/berry/1''],
      \<lparr>resource = ''berry'', u_list = None, cache = [Num 1 \<mapsto> cheri_capital],
       u_nameMap = [Str ''Cheri'' \<mapsto> Num 1]\<rparr>) \<and>
   GetV cheri_capital ''name'' = Inr (Str ''Cheri'') \<and>
   u_nameMap \<lparr>resource = ''berry'', u_list = None, cache = [Num 1 \<mapsto> cheri_capital],
       u_nameMap = [Str ''Cheri'' \<mapsto> Num 1]\<rparr> (Str (toLowerCase_ascii ''Cheri'')) = None \<and>
   NamedEndpoint_get toLowerCase_ascii \<lparr>resource = ''berry'', u_list = None, cache = [Num 1 \<mapsto> cheri_capital],
       u_nameMap = [Str ''Cheri'' \<mapsto> Num 1]\<rparr> (PStr ''Cheri'') = Undefined \<and>
   NamedEndpoint_get toLowerCase_ascii \<lparr>resource = ''berry'', u_list = None, cache = [Num 1 \<mapsto> cheri_capital],
       u_nameMap = [Str ''Cheri'' \<mapsto> Num 1]\<rparr> (PStr ''CHERI'') = Undefined \<and>
   cheri_capital \<noteq> Undefined"
proof -
  have a: "GetV cheri_capital ''id'' = Inr (Num 1)"
       "GetV cheri_capital ''name'' = Inr (Str ''Cheri'')"
    by (simp_all add: cheri_capital_def property_def)
  show ?thesis
    by (simp add: NamedEndpoint_fetch_def request_def capital_transport_def BASE_URI_def
        new_NamedEndpoint_def digits_Suc_0 NamedEndpoint_u_cache_def a toLowerCase_Cheri
        NamedEndpoint_get_def Map_get_def)
      (simp add: cheri_capital_def)
qed

text \<open>
  The condition on shared names is needed for the name map to follow the cache: when
  the transport delivers the resources 1 and 2 under one name, the name map sends that
  name to 2, while the resource 1 stays in the cache.
\<close>

lemma shared_name_is_indexed_once:
  "cache (snd (NamedEndpoint_calls toLowerCase_ascii twin_transport ([], new_NamedEndpoint ''berry'')
                 [NFetch (PNum 1) True, NFetch (PNum 2) True])) (Num 1) = Some cheri \<and>
   GetV cheri ''name'' = Inr (Str ''cheri'') \<and>
   u_nameMap (snd (NamedEndpoint_calls toLowerCase_ascii twin_transport ([], new_NamedEndpoint ''berry'')
                     [NFetch (PNum 1) True, NFetch (PNum 2) True]))
     (Str (toLowerCase_ascii ''cheri'')) = Some (Num 2)"
proof -
  have a: "GetV cheri_twin ''id'' = Inr (Num 2)" "GetV cheri_twin ''name'' = Inr (Str ''cheri'')"
    by (simp_all add: cheri_twin_def property_def)
  show ?thesis
    by (simp add: NamedEndpoint_calls_def NamedEndpoint_fetch_def request_def
        twin_transport_def NamedEndpoint_u_cache_def berry_ids berry_names a
        new_NamedEndpoint_def toLowerCase_berries)
qed

text \<open>
  Claim C8, as amended. When a \<^verbatim>\<open>fetch\<close> on a \<^verbatim>\<open>NamedEndpoint\<close> succeeds with a
  resource that has no \<^verbatim>\<open>name\<close>, the cache gets the resource under its \<^verbatim>\<open>id\<close>, and
  the name map gets one entry: the key \<^verbatim>\<open>undefined\<close>, sent to that id. Every other key
  of the name map, so every name, is as it was, and so is the rest of the endpoint.
\<close>

theorem nameless_fetch_sets_undefined_key:
  assumes "NamedEndpoint_fetch toLowerCase tr log this p c = (Inr data, log', this')"
    and "GetV data ''name'' = Inr Undefined"
  shows "(\<exists>k. GetV data ''id'' = Inr k \<and>
            this' = this\<lparr>cache := (cache this)(k \<mapsto> data),
                         u_nameMap := (u_nameMap this)(Undefined \<mapsto> k)\<rparr> \<and>
            u_nameMap this' Undefined = Some k) \<and>
         u_nameMap this' (Str s) = u_nameMap this (Str s) \<and>
         u_nameMap this' = (u_nameMap this)(Undefined := u_nameMap this' Undefined)"
  using NamedEndpoint_fetch_Inr [OF assms(1)] assms(2) by auto

lemma anonymous_props:
  "GetV anonymous ''id'' = Inr (Num 3)" "GetV anonymous ''name'' = Inr Undefined"
  by (simp_all add: anonymous_def property_def)

lemma digits_3: "digits 3 = ''3''"
  by code_simp

lemma NamedEndpoint_fetch_anonymous:
  "NamedEndpoint_fetch toLowerCase_ascii anonymous_transport [] (new_NamedEndpoint ''berry'') (PNum 3) True =
     (Inr anonymous, [''https://pokeapi.co/api/v2/berry/3''],
      \<lparr>resource = ''berry'', u_list = None, cache = [Num 3 \<mapsto> anonymous],
       u_nameMap = [Undefined \<mapsto> Num 3]\<rparr>)"
  by (simp add: NamedEndpoint_fetch_def request_def anonymous_transport_def BASE_URI_def
      new_NamedEndpoint_def digits_3 NamedEndpoint_u_cache_def anonymous_props)

theorem nameless_fetch_sets_undefined_key_witness:
  "NamedEndpoint_fetch toLowerCase_ascii anonymous_transport [] (new_NamedEndpoint ''berry'') (PNum 3) True =
     (Inr anonymous, [''https://pokeapi.co/api/v2/berry/3''],
      \<lparr>resource = ''berry'', u_list = None, cache = [Num 3 \<mapsto> anonymous],
       u_nameMap = [Undefined \<mapsto> Num 3]\<rparr>) \<and>
   GetV anonymous ''name'' = Inr Undefined \<and>
   GetV anonymous ''id'' = Inr (Num 3) \<and>
   u_nameMap \<lparr>resource = ''berry'', u_list = None, cache = [Num 3 \<mapsto> anonymous],
       u_nameMap = [Undefined \<mapsto> Num 3]\<rparr> (Str ''anonymous'') =
     u_nameMap (new_NamedEndpoint ''berry'') (Str ''anonymous'')"
  using nameless_fetch_sets_undefined_key [OF NamedEndpoint_fetch_anonymous anonymous_props(2),
      of "''anonymous''"]
    NamedEndpoint_fetch_anonymous anonymous_props
  by simp

text \<open>
  Against the claim as it was stated: before the \<^verbatim>\<open>fetch\<close> the name map has no entry
  under \<^verbatim>\<open>undefined\<close>, after it it has one.
\<close>

theorem nameless_fetch_adds_name_map_entry:
  "fst (NamedEndpoint_fetch toLowerCase_ascii anonymous_transport [] (new_NamedEndpoint ''berry'') (PNum 3) True) =
     Inr anonymous \<and>
   GetV anonymous ''name'' = Inr Undefined \<and>
   u_nameMap (new_NamedEndpoint ''berry'') Undefined = None \<and>
   u_nameMap (snd (snd (NamedEndpoint_fetch toLowerCase_ascii anonymous_transport []
                          (new_NamedEndpoint ''berry'') (PNum 3) True))) Undefined =
     Some (Num 3)"
  by (simp add: NamedEndpoint_fetch_anonymous anonymous_props) (simp add: new_NamedEndpoint_def)

section \<open>get\<close>

text \<open>
  What \<^verbatim>\<open>get\<close> computes. It has a value for every parameter, it is a function of the
  endpoint alone, and a call of it leaves the log and the endpoint as they are. By id
  it gives the cached value, and \<^verbatim>\<open>undefined\<close> when the id is not cached. By name it
  gives what the cache holds under the id the name map has for the lower-cased name;
  for a name the name map does not have it gives what the cache holds under the key
  \<^verbatim>\<open>undefined\<close>, which is \<^verbatim>\<open>undefined\<close> where the cache holds nothing there.
\<close>

lemma get_is_a_lookup:
  "Endpoint_get this i = (case cache this (Num i) of None \<Rightarrow> Undefined | Some v \<Rightarrow> v) \<and>
   NamedEndpoint_get toLowerCase that (PNum i) =
     (case cache that (Num i) of None \<Rightarrow> Undefined | Some v \<Rightarrow> v) \<and>
   (u_nameMap that (Str (toLowerCase s)) = Some k \<longrightarrow>
      NamedEndpoint_get toLowerCase that (PStr s) =
        (case cache that k of None \<Rightarrow> Undefined | Some v \<Rightarrow> v)) \<and>
   (u_nameMap that (Str (toLowerCase s)) = None \<longrightarrow>
      NamedEndpoint_get toLowerCase that (PStr s) =
        (case cache that Undefined of None \<Rightarrow> Undefined | Some v \<Rightarrow> v)) \<and>
   Endpoint_step tr (log, this) (Get i) = (log, this) \<and>
   NamedEndpoint_step toLowerCase tr (log, that) (NGet p) = (log, that)"
  by (simp add: Endpoint_get_def NamedEndpoint_get_def Map_get_def)

lemma toLowerCase_unknown: "toLowerCase_ascii ''unknown-name'' = ''unknown-name''"
  by code_simp

lemma get_is_a_lookup_berry:
  "u_nameMap berry_named_cached (Str (toLowerCase_ascii ''CHERI'')) = Some (Num 1) \<and>
   NamedEndpoint_get toLowerCase_ascii berry_named_cached (PStr ''CHERI'') = cheri \<and>
   u_nameMap berry_named_cached (Str (toLowerCase_ascii ''unknown-name'')) = None \<and>
   cache berry_named_cached Undefined = None \<and>
   NamedEndpoint_get toLowerCase_ascii berry_named_cached (PStr ''unknown-name'') = Undefined \<and>
   Endpoint_get berry_cached 2 = Undefined \<and>
   NamedEndpoint_get toLowerCase_ascii berry_named_cached (PNum 1) = cheri"
proof -
  have a: "u_nameMap berry_named_cached (Str (toLowerCase_ascii ''CHERI'')) = Some (Num 1)"
    by (simp add: berry_named_cached_def toLowerCase_CHERI)
  have b: "u_nameMap berry_named_cached (Str (toLowerCase_ascii ''unknown-name'')) = None"
    by (simp add: berry_named_cached_def toLowerCase_unknown)
  have c: "cache berry_named_cached Undefined = None"
       "cache berry_named_cached (Num 1) = Some cheri" "cache berry_cached (Num 2) = None"
    by (simp_all add: berry_named_cached_def berry_cached_def)
  show ?thesis
    using
      get_is_a_lookup [where toLowerCase = toLowerCase_ascii and that = berry_named_cached and s = "''CHERI''" and k = "Num 1"
        and this = berry_cached and i = 2]
      get_is_a_lookup [where toLowerCase = toLowerCase_ascii and that = berry_named_cached and s = "''unknown-name''"
        and this = berry_cached and i = 1]
      a b c
    by simp
qed

text \<open>
  Claim C9. \<^verbatim>\<open>get\<close> is to give \<^verbatim>\<open>undefined\<close> for a key that is unknown, an
  unknown name included. For a name the name map does not have, \<^verbatim>\<open>get\<close> of the
  subclass hands the \<^verbatim>\<open>undefined\<close> of the name map on to the cache, and \<^verbatim>\<open>_cache\<close>
  stores a payload without \<^verbatim>\<open>id\<close> under that key. So after \<^verbatim>\<open>fetch("")\<close>, which
  requests the URL of the category and is answered with its listing, \<^verbatim>\<open>get\<close> of a
  name that no resource has is that listing, not \<^verbatim>\<open>undefined\<close>.
\<close>

theorem get_of_unknown_name_finds_idless_entry:
  "NamedEndpoint_fetch toLowerCase_ascii berry_transport [] (new_NamedEndpoint ''berry'') (PStr '''') True =
     (Inr berry_all, [''https://pokeapi.co/api/v2/berry/''], berry_listing_cached) \<and>
   u_nameMap berry_listing_cached (Str (toLowerCase_ascii ''unknown-name'')) = None \<and>
   NamedEndpoint_get toLowerCase_ascii berry_listing_cached (PStr ''unknown-name'') = berry_all \<and>
   berry_all \<noteq> Undefined"
proof -
  have a: "GetV berry_all ''id'' = Inr Undefined" "GetV berry_all ''name'' = Inr Undefined"
    by (simp_all add: berry_all_def property_def)
  have b: "toLowerCase_ascii '''' = ''''"
    by (simp add: toLowerCase_ascii_def)
  show ?thesis
    by (simp add: NamedEndpoint_fetch_def request_def berry_transport_def BASE_URI_def
        new_NamedEndpoint_def b NamedEndpoint_u_cache_def a berry_listing_cached_def
        toLowerCase_unknown NamedEndpoint_get_def Map_get_def)
      (simp add: berry_all_def)
qed

end
